theory Spec2Isabelle
  imports Complex_Main "HOL-Library.Word"
begin

unbundle bit_operations_syntax

section \<open>The Perlin noise generator of EasyDSP\<close>

text \<open>
  A shallow embedding of \<^verbatim>\<open>easy::dsp::random::perlin_noise_generator\<close>
  (\<^verbatim>\<open>perlin_noise_generator.hpp\<close>).

  Reading of the template parameters. \<^verbatim>\<open>value_type\<close> is the numeric type of the
  produced samples; its arithmetic is taken exact, on \<^typ>\<open>real\<close>, so rounding is not
  part of the model. \<^verbatim>\<open>std::uniform_int_distribution\<close> produces integral values, so a
  draw is an \<^typ>\<open>int\<close>, embedded into the value type where the arithmetic needs it.
  The entries of the static table are only ever used as the \<^verbatim>\<open>Integer hash\<close> argument
  of \<^verbatim>\<open>grad\<close>, so the table is a list of \<^typ>\<open>int\<close>. The cast to
  \<^verbatim>\<open>std::int64_t\<close> is a \<^typ>\<open>64 word\<close>. Undefined behaviour of the source (a cast
  that does not fit, a table access outside the array) is the value \<open>None\<close>.
\<close>

subsection \<open>The kernels of namespace internal\<close>

definition fade :: "'a::comm_ring_1 \<Rightarrow> 'a" where
  "fade t = t * t * t * (t * (t * 6 - 15) + 10)"

definition lerp :: "'a::ring \<Rightarrow> 'a \<Rightarrow> 'a \<Rightarrow> 'a" where
  "lerp t a b = a + t * (b - a)"

definition grad :: "int \<Rightarrow> 'a::uminus \<Rightarrow> 'a" where
  "grad hash x = (if hash AND 1 = 0 then x else - x)"

subsection \<open>The static table\<close>

text \<open>The 256 values written in the braces of the initialiser, in their order.\<close>

definition permutation_initializer :: "int list" where
  "permutation_initializer =
    [151, 160, 137, 91, 90, 15, 131, 13, 201, 95, 96, 53, 194, 233, 7, 225, 140, 36, 103, 30,
     69, 142, 8, 99, 37, 240, 21, 10, 23, 190, 6, 148, 247, 120, 234, 75, 0, 26, 197, 62,
     94, 252, 219, 203, 117, 35, 11, 32, 57, 177, 33, 88, 237, 149, 56, 87, 174, 20, 125, 136,
     171, 168, 68, 175, 74, 165, 71, 134, 139, 48, 27, 166, 77, 146, 158, 231, 83, 111, 229, 122,
     60, 211, 133, 230, 220, 105, 92, 41, 55, 46, 245, 40, 244, 102, 143, 54, 65, 25, 63, 161,
     1, 216, 80, 73, 209, 76, 132, 187, 208, 89, 18, 169, 200, 196, 135, 130, 116, 188, 159, 86,
     164, 100, 109, 198, 173, 186, 3, 64, 52, 217, 226, 250, 124, 123, 5, 202, 38, 147, 118, 126,
     255, 82, 85, 212, 207, 206, 59, 227, 47, 16, 58, 17, 182, 189, 28, 42, 223, 183, 170, 213,
     119, 248, 152, 2, 44, 154, 163, 70, 221, 153, 101, 155, 167, 43, 172, 9, 129, 22, 39, 253,
     19, 98, 108, 110, 79, 113, 224, 232, 178, 185, 112, 104, 218, 246, 97, 228, 251, 34, 242, 193,
     238, 210, 144, 12, 191, 179, 162, 241, 81, 51, 145, 235, 249, 14, 239, 107, 49, 192, 214, 31,
     181, 199, 106, 157, 184, 84, 204, 176, 115, 121, 50, 45, 127, 4, 150, 254, 138, 236, 205, 93,
     222, 114, 67, 29, 24, 72, 243, 141, 128, 195, 78, 66, 215, 61, 156, 180]"

text \<open>
  \<^verbatim>\<open>std::array<T, 512>\<close> is an aggregate of 512 elements: the elements the
  initialiser does not list are value-initialised, which is zero for an arithmetic type.
\<close>

definition permutation :: "int list" where
  "permutation =
     permutation_initializer @ replicate (512 - length permutation_initializer) 0"

text \<open>\<^verbatim>\<open>operator[]\<close> of the array: defined inside the array only.\<close>

definition array_at :: "'a list \<Rightarrow> nat \<Rightarrow> 'a option" where
  "array_at xs i = (if i < length xs then Some (xs ! i) else None)"

subsection \<open>The sampler\<close>

text \<open>
  The two data members \<^verbatim>\<open>generator_\<close> and \<^verbatim>\<open>distribution_\<close> (a name cannot end
  with an underscore here). \<open>generator\<close> is the state of the engine (the type parameter
  \<^verbatim>\<open>Engine\<close>); \<open>distribution\<close> holds the two bounds the distribution was built with.
\<close>

record 'g perlin_noise_generator =
  generator :: 'g
  distribution :: "int \<times> int"

text \<open>
  The constructor. The engine's seeding constructor and the tick count of the system clock
  are parameters: neither is code of this library.
\<close>

definition new_generator :: "(nat \<Rightarrow> 'g) \<Rightarrow> nat \<Rightarrow> 'g perlin_noise_generator" where
  "new_generator Engine now = \<lparr>generator = Engine now, distribution = (0, 511)\<rparr>"

text \<open>
  \<^verbatim>\<open>static_cast<std::int64_t>\<close> of a value: truncation towards zero, defined when the
  truncated value fits 64 signed bits.
\<close>

definition static_cast_int64 :: "real \<Rightarrow> 64 word option" where
  "static_cast_int64 x =
     (let z = (if 0 \<le> x then \<lfloor>x\<rfloor> else \<lceil>x\<rceil>)
      in if - (2 ^ 63) \<le> z \<and> z < 2 ^ 63 then Some (word_of_int z) else None)"

text \<open>
  The body of \<^verbatim>\<open>operator()\<close> after the draw, with the draw and the table it reads
  as arguments. The locals keep the names of the source (\<open>floor_value\<close> is the source's
  name of the fractional part).
\<close>

definition noise_value :: "int list \<Rightarrow> real \<Rightarrow> real option" where
  "noise_value table random_value =
     (case static_cast_int64 random_value of
        None \<Rightarrow> None
      | Some c \<Rightarrow>
          (let index = c AND 0xFF;
               floor_value = random_value - of_int \<lfloor>random_value\<rfloor>;
               fade_value = fade random_value
           in case array_at table (unat index) of
                None \<Rightarrow> None
              | Some h0 \<Rightarrow>
                  (case array_at table (unat (index + 1)) of
                     None \<Rightarrow> None
                   | Some h1 \<Rightarrow>
                       Some (lerp fade_value (grad h0 floor_value)
                               (grad h1 (floor_value - 1)) * 2))))"

text \<open>
  \<^verbatim>\<open>operator()\<close>: one draw of the distribution from the engine, which advances the
  engine, then the computation above on the static table. The call of the distribution on
  the engine is the parameter \<open>draw\<close>: from the bounds and the engine state to the draw
  and the next engine state.
\<close>

definition operator_call ::
  "(int \<times> int \<Rightarrow> 'g \<Rightarrow> int \<times> 'g) \<Rightarrow> 'g perlin_noise_generator
     \<Rightarrow> real option \<times> 'g perlin_noise_generator" where
  "operator_call draw s =
     (let (random_value, g) = draw (distribution s) (generator s)
      in (noise_value permutation (of_int random_value), s\<lparr>generator := g\<rparr>))"

text \<open>\<open>n\<close> successive calls on one instance: the values in the order produced.\<close>

fun samples ::
  "(int \<times> int \<Rightarrow> 'g \<Rightarrow> int \<times> 'g) \<Rightarrow> nat \<Rightarrow> 'g perlin_noise_generator
     \<Rightarrow> real option list \<times> 'g perlin_noise_generator" where
  "samples draw 0 s = ([], s)"
| "samples draw (Suc n) s =
     (let (v, s1) = operator_call draw s;
          (vs, s2) = samples draw n s1
      in (v # vs, s2))"

text \<open>
  What the standard promises of a uniform integer distribution built with bounds
  \<open>a \<le> b\<close>: every draw lies in the closed range.
\<close>

definition draws_in_range :: "(int \<times> int \<Rightarrow> 'g \<Rightarrow> int \<times> 'g) \<Rightarrow> bool" where
  "draws_in_range draw =
     (\<forall>a b g. a \<le> b \<longrightarrow> a \<le> fst (draw (a, b) g) \<and> fst (draw (a, b) g) \<le> b)"

text \<open>
  A deterministic engine for concrete runs: a counter, with a distribution that reduces it
  into the range.
\<close>

definition counter_draw :: "int \<times> int \<Rightarrow> nat \<Rightarrow> int \<times> nat" where
  "counter_draw p g = (fst p + int g mod (snd p - fst p + 1), Suc g)"

subsection \<open>The computation as the specification words it\<close>

definition spec_fade :: "real \<Rightarrow> real" where
  "spec_fade t = t ^ 3 * (t * (6 * t - 15) + 10)"

definition spec_grad :: "int \<Rightarrow> real \<Rightarrow> real" where
  "spec_grad h x = (if even h then x else - x)"

definition spec_index :: "real \<Rightarrow> nat" where
  "spec_index r = nat (\<lfloor>r\<rfloor> AND 0xFF)"

definition spec_noise :: "real \<Rightarrow> real" where
  "spec_noise r =
     (let index = spec_index r;
          frac = r - of_int \<lfloor>r\<rfloor>;
          fadeVal = spec_fade r;
          g0 = spec_grad (permutation ! index) frac;
          g1 = spec_grad (permutation ! (index + 1)) (frac - 1)
      in 2 * (g0 + fadeVal * (g1 - g0)))"

section \<open>Auxiliary facts\<close>

subsection \<open>The table\<close>

lemma length_permutation_initializer: "length permutation_initializer = 256"
  by (simp add: permutation_initializer_def)

lemma length_permutation: "length permutation = 512"
  by (simp add: permutation_def length_permutation_initializer)

lemma permutation_upper_half:
  assumes "256 \<le> i" and "i < 512"
  shows "permutation ! i = 0"
  using assms by (simp add: permutation_def length_permutation_initializer nth_append)

lemma permutation_lower_half:
  assumes "i < 256"
  shows "permutation ! i = permutation_initializer ! i"
  using assms by (simp add: permutation_def length_permutation_initializer nth_append)

lemma array_at_permutation:
  assumes "i < 512"
  shows "array_at permutation i = Some (permutation ! i)"
  using assms by (simp add: array_at_def length_permutation)

subsection \<open>The kernels\<close>

lemma grad_even_odd: "grad h x = (if even h then x else - x)"
  by (simp add: grad_def and_one_eq even_iff_mod_2_eq_zero)

lemma grad_zero: "grad h (0::real) = 0"
  by (simp add: grad_def)

lemma fade_power: "fade (t::real) = t ^ 3 * (t * (6 * t - 15) + 10)"
  by (simp add: fade_def power3_eq_cube algebra_simps)

subsection \<open>The index\<close>

lemma index_le: "unat ((c::64 word) AND 0xFF) \<le> 255"
proof -
  have "c AND 0xFF \<le> 0xFF"
    by (rule word_and_le1)
  then have "unat (c AND 0xFF) \<le> unat (0xFF :: 64 word)"
    by (simp add: word_le_nat_alt)
  then show ?thesis
    by simp
qed

lemma index_Suc: "unat (((c::64 word) AND 0xFF) + 1) = unat (c AND 0xFF) + 1"
proof -
  have "unat (c AND 0xFF) + unat (1 :: 64 word) < 2 ^ LENGTH(64)"
    using index_le [of c] by simp
  then have "unat ((c AND 0xFF) + 1) = unat (c AND 0xFF) + unat (1 :: 64 word)"
    by (simp only: unat_add_lem)
  then show ?thesis
    by simp
qed

lemma index_of_int: "unat ((word_of_int z :: 64 word) AND 0xFF) = nat (z AND 0xFF)"
proof -
  have m: "(0xFF :: 64 word) = word_of_int 0xFF"
    by simp
  have b: "0 \<le> z AND 0xFF" "z AND 0xFF \<le> 0xFF"
    by (simp_all add: AND_upper2)
  have "(word_of_int z :: 64 word) AND 0xFF = word_of_int (z AND 0xFF)"
    unfolding m by (simp only: word_wi_log_defs)
  moreover have "uint (word_of_int (z AND 0xFF) :: 64 word) = z AND 0xFF"
    using b by (simp add: uint_word_of_int)
  ultimately show ?thesis
    by (simp add: unat_eq_nat_uint)
qed

lemma spec_index_le: "spec_index r \<le> 255"
  using index_le [of "word_of_int \<lfloor>r\<rfloor>"] by (simp only: index_of_int spec_index_def)

lemma spec_index_of_int: "spec_index (of_int d) = nat (d AND 0xFF)"
  by (simp add: spec_index_def)

subsection \<open>The cast\<close>

lemma static_cast_int64_nonneg:
  assumes "0 \<le> r" and "r < 2 ^ 63"
  shows "static_cast_int64 r = Some (word_of_int \<lfloor>r\<rfloor>)"
proof -
  have "0 \<le> \<lfloor>r\<rfloor>"
    using assms by simp
  moreover have "\<lfloor>r\<rfloor> < 2 ^ 63"
    using assms by (simp add: floor_less_iff)
  ultimately show ?thesis
    using assms by (simp add: static_cast_int64_def)
qed

subsection \<open>The body of the call operator, unfolded\<close>

lemma noise_value_unfold:
  assumes "0 \<le> r" and "r < 2 ^ 63" and "length table = 512"
  shows "noise_value table r =
           Some (lerp (fade r) (grad (table ! spec_index r) (r - of_int \<lfloor>r\<rfloor>))
                   (grad (table ! (spec_index r + 1)) (r - of_int \<lfloor>r\<rfloor> - 1)) * 2)"
proof -
  let ?c = "word_of_int \<lfloor>r\<rfloor> :: 64 word"
  have i: "unat (?c AND 0xFF) = spec_index r"
    by (simp add: index_of_int spec_index_def)
  have i1: "unat ((?c AND 0xFF) + 1) = spec_index r + 1"
    by (simp only: index_Suc i)
  have a0: "array_at table (spec_index r) = Some (table ! spec_index r)"
    using spec_index_le [of r] assms(3) by (simp add: array_at_def)
  have a1: "array_at table (spec_index r + 1) = Some (table ! (spec_index r + 1))"
    using spec_index_le [of r] assms(3) by (simp add: array_at_def)
  show ?thesis
    unfolding noise_value_def static_cast_int64_nonneg [OF assms(1,2)]
    by (simp only: option.case Let_def i i1 a0 a1)
qed

lemma noise_value_spec:
  assumes "0 \<le> r" and "r < 2 ^ 63"
  shows "noise_value permutation r = Some (spec_noise r)"
proof -
  have f: "spec_fade r = fade r"
    by (simp add: spec_fade_def fade_power)
  have g: "spec_grad h x = grad h x" for h x
    by (simp add: spec_grad_def grad_even_odd)
  show ?thesis
    unfolding noise_value_unfold [OF assms length_permutation]
    by (simp only: spec_noise_def Let_def f g lerp_def mult.commute)
qed

lemma noise_value_integral:
  assumes "0 \<le> d" and "d \<le> 511" and "length table = 512"
  shows "noise_value table (of_int d) =
           Some (if even (table ! (nat (d AND 0xFF) + 1))
                 then - 2 * fade (of_int d) else 2 * fade (of_int d))"
proof -
  have r: "0 \<le> (of_int d :: real)" "(of_int d :: real) < 2 ^ 63"
    using assms by simp_all
  show ?thesis
    unfolding noise_value_unfold [OF r assms(3)]
    by (simp add: spec_index_of_int grad_zero grad_even_odd lerp_def)
qed

subsection \<open>The call operator and the engine\<close>

lemma draw_bounds:
  assumes "draws_in_range draw"
  shows "0 \<le> fst (draw (0, 511) g) \<and> fst (draw (0, 511) g) \<le> 511"
  using assms unfolding draws_in_range_def by (metis zero_le_numeral)

lemma operator_call_value:
  "fst (operator_call draw s) =
     noise_value permutation (of_int (fst (draw (distribution s) (generator s))))"
  by (simp add: operator_call_def split_beta)

lemma draws_in_range_counter_draw: "draws_in_range counter_draw"
proof -
  have "a \<le> a + int g mod (b - a + 1) \<and> a + int g mod (b - a + 1) \<le> b"
    if "a \<le> b" for a b :: int and g :: nat
  proof -
    have "0 < b - a + 1"
      using that by simp
    then have "0 \<le> int g mod (b - a + 1)" and "int g mod (b - a + 1) < b - a + 1"
      by (rule pos_mod_sign, rule pos_mod_bound)
    then show ?thesis
      by linarith
  qed
  then show ?thesis
    by (simp add: draws_in_range_def counter_draw_def)
qed

subsection \<open>The body of the call operator on any value the cast accepts\<close>

lemma noise_value_cast:
  assumes "static_cast_int64 r = Some c" and "length table = 512"
  shows "noise_value table r =
           Some (lerp (fade r) (grad (table ! unat (c AND 0xFF)) (r - of_int \<lfloor>r\<rfloor>))
                   (grad (table ! unat ((c AND 0xFF) + 1)) (r - of_int \<lfloor>r\<rfloor> - 1)) * 2)"
proof -
  have a0: "array_at table (unat (c AND 0xFF)) = Some (table ! unat (c AND 0xFF))"
    using index_le [of c] assms(2) by (simp add: array_at_def)
  have "unat ((c AND 0xFF) + 1) < 512"
    using index_le [of c] by (simp add: index_Suc)
  then have a1: "array_at table (unat ((c AND 0xFF) + 1))
                   = Some (table ! unat ((c AND 0xFF) + 1))"
    using assms(2) by (simp add: array_at_def)
  show ?thesis
    unfolding noise_value_def assms(1)
    by (simp only: option.case Let_def a0 a1)
qed

subsection \<open>Successive calls\<close>

lemma operator_call_state:
  "snd (operator_call draw s) = s\<lparr>generator := snd (draw (distribution s) (generator s))\<rparr>"
  by (simp add: operator_call_def split_beta)

lemma samples_Suc:
  "fst (samples draw (Suc n) s)
     = fst (operator_call draw s) # fst (samples draw n (snd (operator_call draw s)))"
  "snd (samples draw (Suc n) s) = snd (samples draw n (snd (operator_call draw s)))"
  by (simp_all add: split_beta)

lemma length_samples: "length (fst (samples draw n s)) = n"
  by (induction n arbitrary: s) (simp_all add: split_beta)

lemma samples_state:
  "snd (samples draw n s)
     = s\<lparr>generator := ((\<lambda>g. snd (draw (distribution s) g)) ^^ n) (generator s)\<rparr>"
proof (induction n arbitrary: s)
  case 0
  show ?case by simp
next
  case (Suc n)
  show ?case
    by (simp only: samples_Suc Suc.IH operator_call_state funpow_Suc_right o_apply)
      simp
qed

lemma samples_nth:
  assumes "k < n"
  shows "fst (samples draw n s) ! k
           = noise_value permutation
               (of_int (fst (draw (distribution s)
                  (((\<lambda>g. snd (draw (distribution s) g)) ^^ k) (generator s)))))"
  using assms
proof (induction n arbitrary: s k)
  case 0
  then show ?case by simp
next
  case (Suc n)
  show ?case
  proof (cases k)
    case 0
    then show ?thesis
      by (simp only: samples_Suc nth_Cons_0 operator_call_value funpow_0)
  next
    case (Suc j)
    then have "j < n"
      using Suc.prems by simp
    from Suc.IH [OF this, of "snd (operator_call draw s)"]
    show ?thesis
      unfolding Suc
      by (simp only: samples_Suc nth_Cons_Suc operator_call_state funpow_Suc_right o_apply)
        simp
  qed
qed

lemma permutation_values: "list_all (\<lambda>x. 0 \<le> x \<and> x \<le> 255) permutation"
  by (simp add: permutation_def permutation_initializer_def list_all_iff)

section \<open>The static table\<close>

text \<open>
  C2. The claim: the table has 512 elements, each in \<open>[0, 255]\<close>, and the element at
  position \<open>i + 256\<close> equals the element at position \<open>i\<close>. The first two parts hold of
  the array as the source initialises it. The third fails at \<open>i = 0\<close>: position 0 holds
  151 and position 256 holds 0. The call operator reads position 256 on the draw 255, and
  returns \<open>- 2 * fade 255\<close> there, where the table with a repeated second half would give
  \<open>2 * fade 255\<close>.
\<close>

theorem permutation_second_half_differs:
  "length permutation = 512 \<and> list_all (\<lambda>x. 0 \<le> x \<and> x \<le> 255) permutation \<and>
   permutation ! 0 = 151 \<and> permutation ! (0 + 256) = 0 \<and>
   noise_value permutation 255 = Some (- 2 * fade 255) \<and>
   noise_value (permutation_initializer @ permutation_initializer) 255 = Some (2 * fade 255)"
proof -
  have a: "permutation ! 0 = 151"
    by (simp add: permutation_lower_half) (simp add: permutation_initializer_def)
  have b: "permutation ! (0 + 256) = 0"
    by (simp add: permutation_upper_half)
  have l: "length (permutation_initializer @ permutation_initializer) = 512"
    by (simp add: length_permutation_initializer)
  have c: "noise_value permutation 255 = Some (- 2 * fade 255)"
    using noise_value_integral [of 255 permutation] b
    by (simp add: length_permutation)
  have "(permutation_initializer @ permutation_initializer) ! 256 = 151"
    by (simp add: nth_append length_permutation_initializer)
      (simp add: permutation_initializer_def)
  then have d: "noise_value (permutation_initializer @ permutation_initializer) 255
                  = Some (2 * fade 255)"
    using noise_value_integral [of 255 "permutation_initializer @ permutation_initializer"] l
    by simp
  show ?thesis
    using a b c d by (simp only: length_permutation permutation_values simp_thms)
qed

text \<open>
  C9. Every element of the table at the positions 256 to 511 is 0: the initialiser lists
  256 values for an array of 512, and the rest is value-initialised.
\<close>

theorem permutation_second_half_zero:
  "length permutation = 512 \<and> (\<forall>i. 256 \<le> i \<and> i < 512 \<longrightarrow> permutation ! i = 0)"
  by (simp add: length_permutation permutation_upper_half)

theorem permutation_second_half_zero_witness:
  "(256::nat) \<le> 256 \<and> (256::nat) < 512 \<and> permutation ! 256 = 0"
  using permutation_second_half_zero by simp

section \<open>The gradient\<close>

text \<open>
  C4. For every integer \<open>h\<close> and every value \<open>x\<close>, zero and negative values included,
  \<open>grad h x\<close> is \<open>x\<close> when \<open>h\<close> is even and \<open>- x\<close> when \<open>h\<close> is odd.
\<close>

theorem grad_parity_rule:
  fixes x :: "'a::uminus"
  shows "(even h \<longrightarrow> grad h x = x) \<and> (odd h \<longrightarrow> grad h x = - x)"
  by (simp add: grad_even_odd)

theorem grad_parity_rule_witness:
  "even (160::int) \<and> grad 160 (- (7/10) :: real) = - (7/10) \<and>
   odd (151::int) \<and> grad 151 (3/10 :: real) = - (3/10) \<and>
   odd (- 3::int) \<and> grad (- 3) (0 :: real) = - 0"
  using grad_parity_rule [of 160 "- (7/10) :: real"] grad_parity_rule [of 151 "3/10 :: real"]
    grad_parity_rule [of "- 3" "0 :: real"]
  by simp

section \<open>The call operator\<close>

text \<open>
  C1. For every draw \<open>r\<close> of the uniform integer distribution over \<open>[0, 511]\<close>, the
  call operator returns \<open>2 * (g0 + fadeVal * (g1 - g0))\<close>, with \<open>index\<close>, \<open>frac\<close>,
  \<open>fadeVal\<close>, \<open>g0\<close> and \<open>g1\<close> computed from \<open>r\<close> as the specification words them
  (\<open>spec_noise\<close>).
\<close>

theorem operator_call_closed_form:
  assumes "draws_in_range draw" and "distribution s = (0, 511)"
  shows "fst (operator_call draw s)
           = Some (spec_noise (of_int (fst (draw (0, 511) (generator s)))))"
proof -
  let ?d = "fst (draw (0, 511) (generator s))"
  have "0 \<le> ?d" and "?d \<le> 511"
    using draw_bounds [OF assms(1), of "generator s"] by simp_all
  then have "0 \<le> (of_int ?d :: real)" and "(of_int ?d :: real) < 2 ^ 63"
    by simp_all
  then have "noise_value permutation (of_int ?d) = Some (spec_noise (of_int ?d))"
    by (rule noise_value_spec)
  then show ?thesis
    by (simp add: operator_call_value assms(2))
qed

theorem operator_call_closed_form_witness:
  "draws_in_range counter_draw \<and> distribution (new_generator id 3) = (0, 511) \<and>
   fst (operator_call counter_draw (new_generator id 3)) = Some (spec_noise 3) \<and>
   spec_noise 3 = 2 * (0 + 513 * (- 1 - 0))"
proof -
  have h: "distribution (new_generator id 3) = (0, 511)"
    by (simp add: new_generator_def)
  have p: "permutation ! 3 = 91" "permutation ! 4 = 90"
    by (simp_all add: permutation_lower_half) (simp_all add: permutation_initializer_def)
  have v: "spec_noise 3 = 2 * (0 + 513 * (- 1 - 0))"
    by (simp add: spec_noise_def spec_index_def spec_fade_def spec_grad_def p)
  show ?thesis
    using operator_call_closed_form [OF draws_in_range_counter_draw h] h v
    by (simp add: draws_in_range_counter_draw new_generator_def counter_draw_def)
qed

text \<open>
  C3. For every draw in \<open>[0, 511]\<close> the index lies in \<open>[0, 255]\<close> and the index plus one
  in \<open>[1, 256]\<close>; both are positions of the 512-element table, and the call operator
  returns a value: no access outside the table, no failure.
\<close>

theorem operator_call_in_bounds:
  assumes "draws_in_range draw" and "distribution s = (0, 511)"
  shows "\<exists>c. static_cast_int64 (of_int (fst (draw (0, 511) (generator s)))) = Some c \<and>
           unat (c AND 0xFF) \<le> 255 \<and>
           1 \<le> unat ((c AND 0xFF) + 1) \<and> unat ((c AND 0xFF) + 1) \<le> 256 \<and>
           unat (c AND 0xFF) < length permutation \<and>
           unat ((c AND 0xFF) + 1) < length permutation \<and>
           (\<exists>v. fst (operator_call draw s) = Some v)"
proof -
  let ?d = "fst (draw (0, 511) (generator s))"
  let ?c = "word_of_int ?d :: 64 word"
  have "0 \<le> ?d" and "?d \<le> 511"
    using draw_bounds [OF assms(1), of "generator s"] by simp_all
  then have r: "0 \<le> (of_int ?d :: real)" "(of_int ?d :: real) < 2 ^ 63"
    by simp_all
  have c: "static_cast_int64 (of_int ?d) = Some ?c"
    using static_cast_int64_nonneg [OF r] by simp
  have v: "\<exists>v. fst (operator_call draw s) = Some v"
    using noise_value_spec [OF r] by (simp add: operator_call_value assms(2))
  have i: "unat (?c AND 0xFF) \<le> 255"
    by (rule index_le)
  have j: "unat ((?c AND 0xFF) + 1) = unat (?c AND 0xFF) + 1"
    by (rule index_Suc)
  have k: "1 \<le> unat ((?c AND 0xFF) + 1)" "unat ((?c AND 0xFF) + 1) \<le> 256"
    using i by (simp_all add: j)
  have l: "unat (?c AND 0xFF) < length permutation"
    "unat ((?c AND 0xFF) + 1) < length permutation"
    using i k by (simp_all add: length_permutation)
  show ?thesis
    using c i k l v by blast
qed

theorem operator_call_in_bounds_witness:
  "draws_in_range counter_draw \<and> distribution (new_generator id 255) = (0, 511) \<and>
   (\<exists>c. static_cast_int64 255 = Some c \<and> unat ((c AND 0xFF) + 1) \<le> 256 \<and>
      (\<exists>v. fst (operator_call counter_draw (new_generator id 255)) = Some v))"
proof -
  have h: "distribution (new_generator id 255) = (0, 511)"
    by (simp add: new_generator_def)
  have g: "fst (counter_draw (0, 511) (generator (new_generator id 255))) = 255"
    by (simp add: new_generator_def counter_draw_def)
  show ?thesis
    using operator_call_in_bounds [OF draws_in_range_counter_draw h] h
    unfolding g by (auto simp add: draws_in_range_counter_draw)
qed

text \<open>
  C5. \<open>fade t\<close> is the quintic \<open>t\<^sup>3 * (t * (6 * t - 15) + 10)\<close> for every \<open>t\<close>, and the call
  operator applies it to the raw draw, not to the fractional part: the interpolation weight
  of the returned value is \<open>fade\<close> of the draw, and on the draw 2 the result differs from
  the one with \<open>fade\<close> of the fractional part as weight.
\<close>

theorem fade_quintic_of_raw_draw:
  assumes "draws_in_range draw" and "distribution s = (0, 511)"
  defines "r \<equiv> real_of_int (fst (draw (0, 511) (generator s)))"
  shows "(\<forall>t::real. fade t = t ^ 3 * (t * (6 * t - 15) + 10)) \<and>
         fst (operator_call draw s)
           = Some (lerp (fade r) (grad (permutation ! spec_index r) (r - of_int \<lfloor>r\<rfloor>))
                     (grad (permutation ! (spec_index r + 1)) (r - of_int \<lfloor>r\<rfloor> - 1)) * 2) \<and>
         noise_value permutation 2
           \<noteq> Some (lerp (fade (2 - of_int \<lfloor>2::real\<rfloor>))
                      (grad (permutation ! spec_index 2) (2 - of_int \<lfloor>2::real\<rfloor>))
                      (grad (permutation ! (spec_index 2 + 1)) (2 - of_int \<lfloor>2::real\<rfloor> - 1)) * 2)"
  (is "?quintic \<and> ?weight \<and> ?differs")
proof -
  have "0 \<le> fst (draw (0, 511) (generator s))" and "fst (draw (0, 511) (generator s)) \<le> 511"
    using draw_bounds [OF assms(1), of "generator s"] by simp_all
  then have b: "0 \<le> r" "r < 2 ^ 63"
    by (simp_all add: r_def)
  have "fst (operator_call draw s) = noise_value permutation r"
    by (simp add: operator_call_value assms(2) r_def)
  then have call: ?weight
    by (simp only: noise_value_unfold [OF b length_permutation])
  have two: "noise_value permutation 2 = Some 64"
  proof -
    have "permutation ! 3 = 91"
      by (simp add: permutation_lower_half) (simp add: permutation_initializer_def)
    then show ?thesis
      using noise_value_integral [of 2 permutation]
      by (simp add: length_permutation fade_def)
  qed
  have other: "lerp (fade (2 - of_int \<lfloor>2::real\<rfloor>))
                      (grad (permutation ! spec_index 2) (2 - of_int \<lfloor>2::real\<rfloor>))
                      (grad (permutation ! (spec_index 2 + 1)) (2 - of_int \<lfloor>2::real\<rfloor> - 1)) * 2
                 = (0::real)"
    by (simp add: fade_def lerp_def grad_zero)
  have differs: ?differs
    by (simp only: two other) simp
  have quintic: ?quintic
    by (simp add: fade_power)
  show ?thesis
    using quintic call differs by (intro conjI)
qed

theorem fade_quintic_of_raw_draw_witness:
  "draws_in_range counter_draw \<and> distribution (new_generator id 3) = (0, 511) \<and>
   fade (3::real) = 3 ^ 3 * (3 * (6 * 3 - 15) + 10) \<and>
   fst (operator_call counter_draw (new_generator id 3))
     = Some (lerp (fade 3) (grad (permutation ! spec_index 3) (3 - of_int \<lfloor>3::real\<rfloor>))
               (grad (permutation ! (spec_index 3 + 1)) (3 - of_int \<lfloor>3::real\<rfloor> - 1)) * 2)"
proof -
  have h: "distribution (new_generator id 3) = (0, 511)"
    by (simp add: new_generator_def)
  have g: "real_of_int (fst (counter_draw (0, 511) (generator (new_generator id 3)))) = 3"
    by (simp add: new_generator_def counter_draw_def)
  show ?thesis
    using fade_quintic_of_raw_draw [OF draws_in_range_counter_draw h] h
    unfolding g by (simp add: draws_in_range_counter_draw)
qed

text \<open>
  C6. In every call the fractional part is the draw minus its floor: on every value the
  cast accepts, integral or not, the body of the call operator takes its two gradients at
  \<open>r - floor r\<close> and at \<open>r - floor r - 1\<close>. The draws of the distribution being
  integral, the fractional part is zero in every call of the operator, whose gradients
  are then taken at \<open>0\<close> and at \<open>0 - 1\<close>.
\<close>

theorem fractional_part_of_draw:
  assumes "draws_in_range draw" and "distribution s = (0, 511)"
  defines "d \<equiv> real_of_int (fst (draw (0, 511) (generator s)))"
  shows "(\<forall>r c. static_cast_int64 r = Some c \<longrightarrow>
            noise_value permutation r
              = Some (lerp (fade r)
                        (grad (permutation ! unat (c AND 0xFF)) (r - of_int \<lfloor>r\<rfloor>))
                        (grad (permutation ! unat ((c AND 0xFF) + 1)) (r - of_int \<lfloor>r\<rfloor> - 1))
                      * 2)) \<and>
         (\<forall>r::real. r \<in> \<int> \<longrightarrow> r - of_int \<lfloor>r\<rfloor> = 0) \<and>
         fst (operator_call draw s) = noise_value permutation d \<and>
         d - of_int \<lfloor>d\<rfloor> = 0 \<and>
         fst (operator_call draw s)
           = Some (lerp (fade d) (grad (permutation ! spec_index d) 0)
                     (grad (permutation ! (spec_index d + 1)) (0 - 1)) * 2)"
  (is "?body \<and> ?integral \<and> ?call \<and> ?zero \<and> ?result")
proof -
  have "0 \<le> fst (draw (0, 511) (generator s))" and "fst (draw (0, 511) (generator s)) \<le> 511"
    using draw_bounds [OF assms(1), of "generator s"] by simp_all
  then have b: "0 \<le> d" "d < 2 ^ 63"
    by (simp_all add: d_def)
  have body: ?body
    using noise_value_cast [OF _ length_permutation] by blast
  have integral: ?integral
    by (auto simp add: Ints_def)
  have zero: ?zero
    by (simp add: d_def)
  have call: ?call
    by (simp add: operator_call_value assms(2) d_def)
  have "noise_value permutation d
          = Some (lerp (fade d) (grad (permutation ! spec_index d) (d - of_int \<lfloor>d\<rfloor>))
                    (grad (permutation ! (spec_index d + 1)) (d - of_int \<lfloor>d\<rfloor> - 1)) * 2)"
    by (rule noise_value_unfold [OF b length_permutation])
  then have "noise_value permutation d
          = Some (lerp (fade d) (grad (permutation ! spec_index d) 0)
                    (grad (permutation ! (spec_index d + 1)) (0 - 1)) * 2)"
    by (simp only: zero)
  then have result: ?result
    by (simp only: call)
  show ?thesis
    using body integral call zero result by (intro conjI)
qed

theorem fractional_part_of_draw_witness:
  "draws_in_range counter_draw \<and> distribution (new_generator id 300) = (0, 511) \<and>
   static_cast_int64 (3 / 10) = Some 0 \<and>
   noise_value permutation (3 / 10)
     = Some (lerp (fade (3 / 10)) (grad 151 (3 / 10)) (grad 160 (3 / 10 - 1)) * 2) \<and>
   noise_value permutation (3 / 10) = Some (- (22827 / 31250)) \<and>
   (300::real) - of_int \<lfloor>300::real\<rfloor> = 0 \<and>
   fst (operator_call counter_draw (new_generator id 300))
     = Some (lerp (fade 300) (grad (permutation ! spec_index 300) 0)
               (grad (permutation ! (spec_index 300 + 1)) (0 - 1)) * 2)"
proof -
  have h: "distribution (new_generator id 300) = (0, 511)"
    by (simp add: new_generator_def)
  have g: "real_of_int (fst (counter_draw (0, 511) (generator (new_generator id 300)))) = 300"
    by (simp add: new_generator_def counter_draw_def)
  have c: "static_cast_int64 (3 / 10) = Some 0"
    by (simp add: static_cast_int64_def)
  have p: "permutation ! 0 = 151" "permutation ! Suc 0 = 160"
    by (simp_all add: permutation_lower_half) (simp_all add: permutation_initializer_def)
  note t = fractional_part_of_draw [OF draws_in_range_counter_draw h, unfolded g]
  from t have "static_cast_int64 (3 / 10) = Some 0 \<longrightarrow>
      noise_value permutation (3 / 10)
        = Some (lerp (fade (3 / 10))
                  (grad (permutation ! unat ((0 :: 64 word) AND 0xFF))
                     (3 / 10 - of_int \<lfloor>3 / 10 :: real\<rfloor>))
                  (grad (permutation ! unat (((0 :: 64 word) AND 0xFF) + 1))
                     (3 / 10 - of_int \<lfloor>3 / 10 :: real\<rfloor> - 1)) * 2)"
    by blast
  then have n: "noise_value permutation (3 / 10)
        = Some (lerp (fade (3 / 10)) (grad 151 (3 / 10)) (grad 160 (3 / 10 - 1)) * 2)"
    using c by (simp add: p)
  have e: "lerp (fade (3 / 10)) (grad 151 (3 / 10)) (grad 160 (3 / 10 - 1)) * 2
             = (- (22827 / 31250) :: real)"
    by (simp add: lerp_def fade_def grad_def)
  have n': "noise_value permutation (3 / 10) = Some (- (22827 / 31250))"
    using n by (simp only: e)
  have z: "(300::real) - of_int \<lfloor>300::real\<rfloor> = 0"
    by simp
  have v: "fst (operator_call counter_draw (new_generator id 300))
     = Some (lerp (fade 300) (grad (permutation ! spec_index 300) 0)
               (grad (permutation ! (spec_index 300 + 1)) (0 - 1)) * 2)"
    using t by blast
  show ?thesis
    using draws_in_range_counter_draw h c n n' z v by (intro conjI)
qed

text \<open>
  C10. For every draw of the distribution, which is integral, the call operator returns
  \<open>2 * fade r\<close> when the table entry at \<open>index + 1\<close> is odd and \<open>- 2 * fade r\<close> when it
  is even, with \<open>index = r AND 0xFF\<close>; the table entry at \<open>index\<close> has no influence:
  whatever is stored there, the result is the same.
\<close>

theorem integral_draw_value:
  assumes "draws_in_range draw" and "distribution s = (0, 511)"
  defines "d \<equiv> fst (draw (0, 511) (generator s))"
  defines "index \<equiv> nat (d AND 0xFF)"
  shows "(odd (permutation ! (index + 1))
            \<longrightarrow> fst (operator_call draw s) = Some (2 * fade (of_int d))) \<and>
         (even (permutation ! (index + 1))
            \<longrightarrow> fst (operator_call draw s) = Some (- 2 * fade (of_int d))) \<and>
         (\<forall>h. noise_value (permutation[index := h]) (of_int d)
                = noise_value permutation (of_int d))"
proof -
  have b: "0 \<le> d" "d \<le> 511"
    using draw_bounds [OF assms(1), of "generator s"] by (simp_all add: d_def)
  have call: "fst (operator_call draw s) = noise_value permutation (of_int d)"
    by (simp add: operator_call_value assms(2) d_def)
  have v: "noise_value permutation (of_int d)
             = Some (if even (permutation ! (index + 1))
                     then - 2 * fade (of_int d) else 2 * fade (of_int d))"
    using noise_value_integral [OF b length_permutation] by (simp only: index_def)
  have u: "noise_value (permutation[index := h]) (of_int d)
             = noise_value permutation (of_int d)" for h
  proof -
    have "length (permutation[index := h]) = 512"
      by (simp add: length_permutation)
    from noise_value_integral [OF b this]
    have "noise_value (permutation[index := h]) (of_int d)
            = Some (if even (permutation[index := h] ! (index + 1))
                    then - 2 * fade (of_int d) else 2 * fade (of_int d))"
      by (simp only: index_def)
    moreover have "permutation[index := h] ! (index + 1) = permutation ! (index + 1)"
      by simp
    ultimately show ?thesis
      by (simp only: v)
  qed
  show ?thesis
    using u by (simp add: call v)
qed

theorem integral_draw_value_witness:
  "draws_in_range counter_draw \<and> distribution (new_generator id 3) = (0, 511) \<and>
   even (permutation ! (nat (3 AND 0xFF) + 1)) \<and>
   fst (operator_call counter_draw (new_generator id 3)) = Some (- 2 * fade 3) \<and>
   noise_value (permutation[nat (3 AND 0xFF) := 90]) 3 = noise_value permutation 3"
proof -
  have h: "distribution (new_generator id 3) = (0, 511)"
    by (simp add: new_generator_def)
  have g: "fst (counter_draw (0, 511) (generator (new_generator id 3))) = 3"
    by (simp add: new_generator_def counter_draw_def)
  have e: "permutation ! 4 = 90"
    by (simp add: permutation_lower_half) (simp add: permutation_initializer_def)
  show ?thesis
    using integral_draw_value [OF draws_in_range_counter_draw h] h
    unfolding g by (simp add: draws_in_range_counter_draw e)
qed

text \<open>
  C8. The scenario \<open>index = 0\<close> and \<open>frac = 0.3\<close>: the table holds 151 (odd) at 0 and 160
  (even) at 1, so \<open>g0 = - 0.3\<close> and \<open>g1 = grad 160 (- 0.7) = - 0.7\<close>, and the body of the call
  operator evaluates to \<open>2 * (- 0.3 + fade r * (- 0.7 - (- 0.3)))\<close>.
\<close>

theorem scenario_index_zero:
  assumes "static_cast_int64 r = Some c" and "c AND 0xFF = 0"
    and "r - of_int \<lfloor>r\<rfloor> = 3 / 10"
  shows "permutation ! 0 = 151 \<and> permutation ! 1 = 160 \<and>
         grad (permutation ! 0) (r - of_int \<lfloor>r\<rfloor>) = - (3 / 10) \<and>
         grad (permutation ! 1) (r - of_int \<lfloor>r\<rfloor> - 1) = - (7 / 10) \<and>
         grad 160 (- (7 / 10) :: real) = - (7 / 10) \<and>
         noise_value permutation r
           = Some (2 * (- (3 / 10) + fade r * (- (7 / 10) - (- (3 / 10)))))"
proof -
  have p: "permutation ! 0 = 151" "permutation ! 1 = 160"
    by (simp_all add: permutation_lower_half) (simp_all add: permutation_initializer_def)
  have a: "array_at permutation 0 = Some 151" "array_at permutation (Suc 0) = Some 160"
    using p by (simp_all add: array_at_permutation)
  have g0: "grad 151 (r - of_int \<lfloor>r\<rfloor>) = - (3 / 10)"
    by (simp add: grad_even_odd assms(3))
  have g1: "grad 160 (r - of_int \<lfloor>r\<rfloor> - 1) = - (7 / 10)"
    by (simp add: grad_even_odd assms(3))
  have g: "grad 160 (- (7 / 10) :: real) = - (7 / 10)"
    by (simp add: grad_even_odd)
  have "noise_value permutation r
          = Some (lerp (fade r) (grad 151 (r - of_int \<lfloor>r\<rfloor>))
                    (grad 160 (r - of_int \<lfloor>r\<rfloor> - 1)) * 2)"
    by (simp add: noise_value_def assms(1,2) a Let_def)
  then have "noise_value permutation r
          = Some (2 * (- (3 / 10) + fade r * (- (7 / 10) - (- (3 / 10)))))"
    by (simp only: g0 g1 lerp_def mult.commute)
  then show ?thesis
    using p g0 g1 g by simp
qed

theorem scenario_index_zero_witness:
  "static_cast_int64 (3 / 10) = Some 0 \<and> (0 :: 64 word) AND 0xFF = 0 \<and>
   (3 / 10 :: real) - of_int \<lfloor>3 / 10 :: real\<rfloor> = 3 / 10 \<and>
   noise_value permutation (3 / 10)
     = Some (2 * (- (3 / 10) + fade (3 / 10) * (- (7 / 10) - (- (3 / 10)))))"
proof -
  have c: "static_cast_int64 (3 / 10) = Some 0"
    by (simp add: static_cast_int64_def)
  have m: "(0 :: 64 word) AND 0xFF = 0"
    by simp
  have f: "(3 / 10 :: real) - of_int \<lfloor>3 / 10 :: real\<rfloor> = 3 / 10"
    by simp
  show ?thesis
    using scenario_index_zero [OF c m f] c f by simp
qed

text \<open>
  C7. The call operator is deterministic in the engine state. \<open>n\<close> calls on a sampler
  produce exactly \<open>n\<close> values; the value of call \<open>k\<close> is the body of the operator on the
  draw the distribution makes from the engine state reached after \<open>k\<close> draws, and the
  engine is left in the state reached after \<open>n\<close> draws. So two samplers whose engines are
  in the same state, with the same distribution, queried the same number of times, produce
  the same sequence of values and leave their engines in the same state.
\<close>

theorem samples_deterministic:
  assumes "generator s1 = generator s2" and "distribution s1 = distribution s2"
  shows "fst (samples draw n s1) = fst (samples draw n s2) \<and>
         length (fst (samples draw n s1)) = n \<and>
         length (fst (samples draw n s2)) = n \<and>
         (\<forall>k<n. fst (samples draw n s1) ! k
                   = noise_value permutation
                       (of_int (fst (draw (distribution s1)
                          (((\<lambda>g. snd (draw (distribution s1) g)) ^^ k) (generator s1))))) \<and>
                fst (samples draw n s2) ! k
                   = noise_value permutation
                       (of_int (fst (draw (distribution s1)
                          (((\<lambda>g. snd (draw (distribution s1) g)) ^^ k) (generator s1)))))) \<and>
         generator (snd (samples draw n s1))
           = ((\<lambda>g. snd (draw (distribution s1) g)) ^^ n) (generator s1) \<and>
         generator (snd (samples draw n s2)) = generator (snd (samples draw n s1))"
  (is "?same \<and> ?len1 \<and> ?len2 \<and> ?elems \<and> ?state \<and> ?states")
proof -
  have len1: ?len1 and len2: ?len2
    by (rule length_samples)+
  have elems: ?elems
    using samples_nth [of _ n draw s1] samples_nth [of _ n draw s2]
    by (simp add: assms)
  have same: ?same
  proof (rule nth_equalityI)
    show "length (fst (samples draw n s1)) = length (fst (samples draw n s2))"
      by (simp only: len1 len2)
  next
    fix k
    assume "k < length (fst (samples draw n s1))"
    then have "k < n"
      by (simp only: len1)
    then show "fst (samples draw n s1) ! k = fst (samples draw n s2) ! k"
      using elems by simp
  qed
  have state: ?state
    by (simp add: samples_state)
  have states: ?states
    by (simp add: samples_state assms)
  show ?thesis
    using same len1 len2 elems state states by (intro conjI)
qed

theorem samples_deterministic_witness:
  "generator (new_generator Suc 6) = generator (new_generator id (7::nat)) \<and>
   distribution (new_generator Suc 6) = distribution (new_generator id (7::nat)) \<and>
   fst (samples counter_draw 3 (new_generator Suc 6))
     = fst (samples counter_draw 3 (new_generator id 7)) \<and>
   length (fst (samples counter_draw 3 (new_generator Suc 6))) = 3 \<and>
   fst (samples counter_draw 3 (new_generator Suc 6)) ! 2 = Some (- 526338) \<and>
   generator (snd (samples counter_draw 3 (new_generator Suc 6))) = 10"
proof -
  have g: "generator (new_generator Suc 6) = generator (new_generator id (7::nat))"
    by (simp add: new_generator_def)
  have d: "distribution (new_generator Suc 6) = distribution (new_generator id (7::nat))"
    by (simp add: new_generator_def)
  note t = samples_deterministic [OF g d, of counter_draw 3]
  have same: "fst (samples counter_draw 3 (new_generator Suc 6))
     = fst (samples counter_draw 3 (new_generator id 7))"
    using t by blast
  have len: "length (fst (samples counter_draw 3 (new_generator Suc 6))) = 3"
    using t by blast
  have f: "((\<lambda>g. snd (counter_draw (distribution (new_generator Suc 6)) g)) ^^ k)
             (generator (new_generator Suc 6)) = 7 + k" for k
    by (induction k) (simp_all add: new_generator_def counter_draw_def)
  have "(2::nat) < 3 \<longrightarrow> fst (samples counter_draw 3 (new_generator Suc 6)) ! 2
          = noise_value permutation
              (of_int (fst (counter_draw (distribution (new_generator Suc 6))
                 (((\<lambda>g. snd (counter_draw (distribution (new_generator Suc 6)) g)) ^^ 2)
                     (generator (new_generator Suc 6))))))"
    using t by blast
  then have "fst (samples counter_draw 3 (new_generator Suc 6)) ! 2
               = noise_value permutation 9"
    by (simp add: f new_generator_def counter_draw_def)
  moreover have "permutation ! 10 = 96"
    by (simp add: permutation_lower_half) (simp add: permutation_initializer_def)
  then have "noise_value permutation 9 = Some (- 526338)"
    using noise_value_integral [of 9 permutation]
    by (simp add: length_permutation fade_def)
  ultimately have third: "fst (samples counter_draw 3 (new_generator Suc 6)) ! 2
                            = Some (- 526338)"
    by simp
  have "generator (snd (samples counter_draw 3 (new_generator Suc 6)))
          = ((\<lambda>g. snd (counter_draw (distribution (new_generator Suc 6)) g)) ^^ 3)
              (generator (new_generator Suc 6))"
    using t by blast
  then have state: "generator (snd (samples counter_draw 3 (new_generator Suc 6))) = 10"
    by (simp only: f)
  show ?thesis
    using g d same len third state by (intro conjI)
qed

end
